theory Spec2Isabelle
  imports Complex_Main "HOL-Library.AList" "HOL-Library.Product_Lexorder"
begin

section \<open>Text\<close>

text \<open>
  A Python string is modelled as a \<^typ>\<open>string\<close>, each character standing for the code
  point of its number (0 to 255). Python integers are \<^typ>\<open>int\<close>.

  \<open>py_isspace\<close> is \<^verbatim>\<open>str.isspace\<close> on these code points, which is also the class \<^verbatim>\<open>\s\<close> of
  \<^verbatim>\<open>re\<close>: tab, line feed, vertical tab, form feed, carriage return, the four separators
  \<open>0x1c-0x1f\<close>, the blank, next line \<open>0x85\<close> and the no-break space \<open>0xa0\<close>. \<open>c_isspace\<close> is
  what \<^verbatim>\<open>float()\<close> strips: the same without the four separators.
\<close>

definition py_isspace :: "char \<Rightarrow> bool" where
  "py_isspace c =
     (let n = (of_char c :: nat) in (9 \<le> n \<and> n \<le> 13) \<or> (28 \<le> n \<and> n \<le> 32) \<or> n = 133 \<or> n = 160)"

definition c_isspace :: "char \<Rightarrow> bool" where
  "c_isspace c = (let n = (of_char c :: nat) in (9 \<le> n \<and> n \<le> 13) \<or> n = 32 \<or> n = 133 \<or> n = 160)"

definition is_digit :: "char \<Rightarrow> bool" where
  "is_digit c = (let n = (of_char c :: nat) in 48 \<le> n \<and> n \<le> 57)"

text \<open>
  \<^verbatim>\<open>s.lower()\<close> and \<^verbatim>\<open>s.upper()\<close>. Below 256 the letters with a case are \<open>A-Z\<close>, \<open>a-z\<close> and
  the accented letters \<open>0xc0-0xde\<close>, \<open>0xe0-0xfe\<close> (but the signs \<open>0xd7\<close> and \<open>0xf7\<close>), 32
  apart; the capital of the sharp s \<open>0xdf\<close> is \<open>SS\<close>. The capitals of the micro sign \<open>0xb5\<close>
  and of \<open>0xff\<close> lie above 255: the model leaves these two letters as they are.
\<close>

definition lower_char :: "char \<Rightarrow> char" where
  "lower_char c =
     (let n = (of_char c :: nat) in
      if (65 \<le> n \<and> n \<le> 90) \<or> (192 \<le> n \<and> n \<le> 222 \<and> n \<noteq> 215) then char_of (n + 32) else c)"

definition upper_char :: "char \<Rightarrow> string" where
  "upper_char c =
     (let n = (of_char c :: nat) in
      if (97 \<le> n \<and> n \<le> 122) \<or> (224 \<le> n \<and> n \<le> 254 \<and> n \<noteq> 247) then [char_of (n - 32)]
      else if n = 223 then ''SS'' else [c])"

text \<open>\<^verbatim>\<open>s.strip()\<close>, \<^verbatim>\<open>s.lower()\<close>, \<^verbatim>\<open>s.upper()\<close>, \<^verbatim>\<open>s.endswith(suffix)\<close>.\<close>

definition strip :: "string \<Rightarrow> string" where
  "strip s = rev (dropWhile py_isspace (rev (dropWhile py_isspace s)))"

definition lower :: "string \<Rightarrow> string" where
  "lower s = map lower_char s"

definition upper :: "string \<Rightarrow> string" where
  "upper s = concat (map upper_char s)"

definition endswith :: "string \<Rightarrow> string \<Rightarrow> bool" where
  "endswith s suffix = (length suffix \<le> length s \<and> drop (length s - length suffix) s = suffix)"

text \<open>The value of a run of decimal digits, and the decimal numeral of a number that is
  not negative.\<close>

definition digit_value :: "char \<Rightarrow> int" where
  "digit_value c = of_char c - 48"

definition int_of_digits :: "string \<Rightarrow> int" where
  "int_of_digits ds = foldl (\<lambda>a c. 10 * a + digit_value c) 0 ds"

definition digit_char :: "int \<Rightarrow> char" where
  "digit_char d = ''0123456789'' ! nat d"

function digits_of_int :: "int \<Rightarrow> string" where
  "digits_of_int n = (if n < 10 then [digit_char n] else digits_of_int (n div 10) @ [digit_char (n mod 10)])"
  by pat_completeness auto
termination
  by (relation "measure nat") auto

declare digits_of_int.simps [simp del]

text \<open>\<^verbatim>\<open>"%0wd" % n\<close>: the numeral padded with zeros on the left to width \<open>w\<close>.\<close>

definition zero_pad :: "nat \<Rightarrow> int \<Rightarrow> string" where
  "zero_pad w n = (let ds = digits_of_int n in replicate (w - length ds) CHR ''0'' @ ds)"

section \<open>Errors\<close>

text \<open>
  Every \<^verbatim>\<open>raise\<close> of the program is a \<^verbatim>\<open>ValueError\<close> told apart by its message; the
  model has one constructor for each raising place, carrying what the message is
  formatted from:
  \<^item> \<open>DateValueError s\<close>: \<^verbatim>\<open>datetime.strptime\<close> refusing the stripped text \<open>s\<close> in
    \<^verbatim>\<open>parse_ecb_date\<close>;
  \<^item> \<open>ZipNoFiles\<close>: \<^verbatim>\<open>ValueError("ZIP contains no files.")\<close>;
  \<^item> \<open>ZipNoDataFile names\<close>:
    \<^verbatim>\<open>ValueError(f"No supported data file found in ZIP. Entries: {names}")\<close>;
  \<^item> \<open>DailyCsvNoRows\<close>: \<^verbatim>\<open>ValueError("Daily CSV has no rows.")\<close>;
  \<^item> \<open>DailyCsvMissingDate\<close>: \<^verbatim>\<open>ValueError("Daily CSV missing 'Date' column.")\<close>;
  \<^item> \<open>NoDailyRates\<close>: \<^verbatim>\<open>ValueError("No daily rates found in ECB daily XML.")\<close>;
  \<^item> \<open>UnsupportedDailyFormat filename\<close>:
    \<^verbatim>\<open>ValueError(f"Unsupported daily file format in ZIP: {filename}")\<close>;
  \<^item> \<open>FsumInfMinusInf\<close>: the \<^verbatim>\<open>ValueError\<close> of \<^verbatim>\<open>math.fsum\<close> on a list holding both
    infinities.

  The others are raised by the interpreter or a library: \<open>AttributeError\<close> for
  \<^verbatim>\<open>.strip()\<close> on a value that is not a string, \<open>KeyError\<close> for \<^verbatim>\<open>ZipFile.read\<close> of a
  name the archive does not hold, \<open>DecodeError\<close> for bytes the decoder or the XML
  parser refuses, \<open>StatisticsError\<close> for \<^verbatim>\<open>statistics.fmean\<close> of no data.
\<close>

datatype error =
    DateValueError string
  | ZipNoFiles
  | ZipNoDataFile "string list"
  | DailyCsvNoRows
  | DailyCsvMissingDate
  | NoDailyRates
  | UnsupportedDailyFormat string
  | FsumInfMinusInf
  | AttributeError
  | KeyError string
  | DecodeError
  | StatisticsError

section \<open>Dates\<close>

text \<open>
  \<^verbatim>\<open>datetime.date\<close>: a year in \<open>1..9999\<close>, a month in \<open>1..12\<close> and a day of that month.
  Dates compare as the triples \<open>(year, month, day)\<close>.
\<close>

record date =
  year :: int
  month :: int
  day :: int

definition date_key :: "date \<Rightarrow> int \<times> int \<times> int" where
  "date_key d = (year d, month d, day d)"

definition is_leap :: "int \<Rightarrow> bool" where
  "is_leap y = (y mod 4 = 0 \<and> (y mod 100 \<noteq> 0 \<or> y mod 400 = 0))"

definition days_in_month :: "int \<Rightarrow> int \<Rightarrow> int" where
  "days_in_month y m =
     (if m = 2 then (if is_leap y then 29 else 28)
      else if m = 4 \<or> m = 6 \<or> m = 9 \<or> m = 11 then 30 else 31)"

text \<open>The constructor \<^verbatim>\<open>date(y, m, d)\<close>, which refuses a day that does not exist.\<close>

definition make_date :: "int \<Rightarrow> int \<Rightarrow> int \<Rightarrow> date option" where
  "make_date y m d =
     (if 1 \<le> y \<and> y \<le> 9999 \<and> 1 \<le> m \<and> m \<le> 12 \<and> 1 \<le> d \<and> d \<le> days_in_month y m
      then Some \<lparr>year = y, month = m, day = d\<rparr> else None)"

text \<open>
  The day count of the calendar, as the \<^verbatim>\<open>datetime\<close> module has it: the ordinal of a date
  (the first of January of year 1 is day 1), and the date of an ordinal. Both are used
  for years from 1 on only.
\<close>

definition days_before_year :: "int \<Rightarrow> int" where
  "days_before_year y = (y - 1) * 365 + (y - 1) div 4 - (y - 1) div 100 + (y - 1) div 400"

definition days_before_month :: "int \<Rightarrow> int \<Rightarrow> int" where
  "days_before_month y m =
     [0, 0, 31, 59, 90, 120, 151, 181, 212, 243, 273, 304, 334] ! nat m
       + (if 2 < m \<and> is_leap y then 1 else 0)"

definition ymd_to_ord :: "int \<Rightarrow> int \<Rightarrow> int \<Rightarrow> int" where
  "ymd_to_ord y m d = days_before_year y + days_before_month y m + d"

definition ord_to_ymd :: "int \<Rightarrow> int \<times> int \<times> int" where
  "ord_to_ymd ordinal =
     (let n0 = ordinal - 1;
          n400 = n0 div 146097; r400 = n0 mod 146097;
          n100 = r400 div 36524; r100 = r400 mod 36524;
          n4 = r100 div 1461; r4 = r100 mod 1461;
          n1 = r4 div 365; n = r4 mod 365;
          y = n400 * 400 + 1 + n100 * 100 + n4 * 4 + n1 in
      if n1 = 4 \<or> n100 = 4 then (y - 1, 12, 31)
      else
        (let leapyear = (n1 = 3 \<and> (n4 \<noteq> 24 \<or> n100 = 3));
             m = (n + 50) div 32;
             preceding = [0, 0, 31, 59, 90, 120, 151, 181, 212, 243, 273, 304, 334] ! nat m
                           + (if 2 < m \<and> leapyear then 1 else 0) in
         if n < preceding then (y, m - 1, n - (preceding - days_in_month y (m - 1)) + 1)
         else (y, m, n - preceding + 1)))"

text \<open>
  A week date of ISO 8601: day \<open>iso_day\<close> (Monday is 1) of week \<open>iso_week\<close> of the year.
  Week 53 exists in a year that starts on a Thursday, or on a Wednesday if a leap year.
  For year 0 the library computes a date outside the calendar, which the constructor
  refuses.
\<close>

definition iso_to_ymd :: "int \<Rightarrow> int \<Rightarrow> int \<Rightarrow> (int \<times> int \<times> int) option" where
  "iso_to_ymd iso_year iso_week iso_day =
     (if iso_year < 1 then None
      else
        (let first_day = ymd_to_ord iso_year 1 1;
             first_weekday = (first_day + 6) mod 7 in
         if (iso_week \<le> 0 \<or> 53 \<le> iso_week)
             \<and> \<not> (iso_week = 53 \<and> (first_weekday = 3 \<or> (first_weekday = 2 \<and> is_leap iso_year)))
         then None
         else if iso_day \<le> 0 \<or> 8 \<le> iso_day then None
         else
           (let week1_monday = first_day - first_weekday + (if 3 < first_weekday then 7 else 0) in
            Some (ord_to_ymd (week1_monday + (iso_week - 1) * 7 + iso_day - 1)))))"

text \<open>
  \<^verbatim>\<open>date.fromisoformat\<close>, as the interpreter (3.11) has it. The text must be 7, 8 or 10
  bytes long in UTF-8. Four digits give the year; a hyphen after them says that the
  parts are separated by hyphens. Then comes either \<open>W\<close>, two digits of a week and, if
  the text is longer, one digit of a day; or two digits of a month and two of a day.
  What follows the last digit read is not looked at. So the calendar form \<open>YYYY-MM-DD\<close>,
  the basic form \<open>YYYYMMDD\<close> and the week forms are read.
\<close>

definition utf8_length :: "string \<Rightarrow> nat" where
  "utf8_length s = sum_list (map (\<lambda>c. if (of_char c :: nat) < 128 then 1 else 2) s)"

definition parse_digits :: "nat \<Rightarrow> string \<Rightarrow> (int \<times> string) option" where
  "parse_digits n s =
     (if n \<le> length s \<and> list_all is_digit (take n s) then Some (int_of_digits (take n s), drop n s)
      else None)"

definition starts_with :: "char \<Rightarrow> string \<Rightarrow> bool" where
  "starts_with c s = (case s of [] \<Rightarrow> False | x # _ \<Rightarrow> x = c)"

definition parse_isoformat_date :: "string \<Rightarrow> nat \<Rightarrow> (int \<times> int \<times> int) option" where
  "parse_isoformat_date dtstr len =
     (case parse_digits 4 dtstr of
        None \<Rightarrow> None
      | Some (y, p) \<Rightarrow>
          (let uses_separator = starts_with CHR ''-'' p;
               p = (if uses_separator then tl p else p) in
           if starts_with CHR ''W'' p then
             (case parse_digits 2 (tl p) of
                None \<Rightarrow> None
              | Some (iso_week, p) \<Rightarrow>
                  if (if uses_separator then 8 else 7) < len then
                    (if uses_separator \<and> \<not> starts_with CHR ''-'' p then None
                     else
                       (case parse_digits 1 (if uses_separator then tl p else p) of
                          None \<Rightarrow> None
                        | Some (iso_day, _) \<Rightarrow> iso_to_ymd y iso_week iso_day))
                  else iso_to_ymd y iso_week 1)
           else
             (case parse_digits 2 p of
                None \<Rightarrow> None
              | Some (m, p) \<Rightarrow>
                  if uses_separator \<and> \<not> starts_with CHR ''-'' p then None
                  else
                    (case parse_digits 2 (if uses_separator then tl p else p) of
                       None \<Rightarrow> None
                     | Some (d, _) \<Rightarrow> Some (y, m, d)))))"

definition fromisoformat :: "string \<Rightarrow> date option" where
  "fromisoformat dtstr =
     (let len = utf8_length dtstr in
      if len = 7 \<or> len = 8 \<or> len = 10 then
        (case parse_isoformat_date dtstr len of
           None \<Rightarrow> None
         | Some (y, m, d) \<Rightarrow> make_date y m d)
      else None)"

text \<open>
  \<^verbatim>\<open>datetime.strptime(s, "%d %B %Y").date()\<close> in the C locale. The format compiles to a
  regular expression matched without regard to case against the whole text: a day
  \<open>1..31\<close> of one or two digits (\<open>%d\<close>), a run of white space, a full English month
  name (\<open>%B\<close>), a run of white space, four digits (\<open>%Y\<close>).
\<close>

definition month_names :: "string list" where
  "month_names = [''january'', ''february'', ''march'', ''april'', ''may'', ''june'', ''july'',
     ''august'', ''september'', ''october'', ''november'', ''december'']"

fun index_of :: "'a \<Rightarrow> 'a list \<Rightarrow> nat option" where
  "index_of x [] = None"
| "index_of x (y # ys) = (if x = y then Some 0 else map_option Suc (index_of x ys))"

definition strptime_dBY :: "string \<Rightarrow> date option" where
  "strptime_dBY s =
     (let d = takeWhile is_digit s; r1 = dropWhile is_digit s;
          w1 = takeWhile py_isspace r1; r2 = dropWhile py_isspace r1;
          b = takeWhile (\<lambda>c. \<not> py_isspace c) r2; r3 = dropWhile (\<lambda>c. \<not> py_isspace c) r2;
          w2 = takeWhile py_isspace r3; y = dropWhile py_isspace r3
      in if (length d = 1 \<or> length d = 2) \<and> 1 \<le> int_of_digits d \<and> int_of_digits d \<le> 31
            \<and> w1 \<noteq> [] \<and> w2 \<noteq> [] \<and> length y = 4 \<and> list_all is_digit y
         then (case index_of (lower b) month_names of
                 None \<Rightarrow> None
               | Some i \<Rightarrow> make_date (int_of_digits y) (int i + 1) (int_of_digits d))
         else None)"

definition parse_ecb_date :: "string \<Rightarrow> error + date" where
  "parse_ecb_date value =
     (let value_stripped = strip value in
      case fromisoformat value_stripped of
        Some d \<Rightarrow> Inr d
      | None \<Rightarrow>
          (case strptime_dBY value_stripped of
             Some d \<Rightarrow> Inr d
           | None \<Rightarrow> Inl (DateValueError value_stripped)))"

text \<open>
  The calendar form of the specification, \<open>YYYY-MM-DD\<close>: ten characters, digits around two
  hyphens. It is used to state what the date parser does, not by the parser.
\<close>

fun iso_calendar_form :: "string \<Rightarrow> bool" where
  "iso_calendar_form [y1, y2, y3, y4, s1, m1, m2, s2, d1, d2] =
     (list_all is_digit [y1, y2, y3, y4, m1, m2, d1, d2] \<and> s1 = CHR ''-'' \<and> s2 = CHR ''-'')"
| "iso_calendar_form _ = False"

section \<open>The archive\<close>

text \<open>
  An open \<^verbatim>\<open>ZipFile\<close> is the list of its entries, name and content, in listing order;
  the type of the content is left open. \<^verbatim>\<open>namelist()\<close> gives the names, \<^verbatim>\<open>read(name)\<close>
  the content of the last entry of that name.
\<close>

type_synonym 'b zip_file = "(string \<times> 'b) list"

definition namelist :: "'b zip_file \<Rightarrow> string list" where
  "namelist z = map fst z"

definition zip_read :: "'b zip_file \<Rightarrow> string \<Rightarrow> error + 'b" where
  "zip_read z name = (case map_of (rev z) name of None \<Rightarrow> Inl (KeyError name) | Some c \<Rightarrow> Inr c)"

definition preferred :: "string list" where
  "preferred = [''eurofxref-daily.xml'', ''eurofxref-hist.xml'', ''eurofxref.csv'', ''eurofxref-hist.csv'']"

definition is_data_file :: "string \<Rightarrow> bool" where
  "is_data_file n = (endswith (lower n) ''.xml'' \<or> endswith (lower n) ''.csv'')"

definition read_single_file_from_zip :: "'b zip_file \<Rightarrow> error + (string \<times> 'b)" where
  "read_single_file_from_zip zip_file =
     (let names = namelist zip_file in
      if names = [] then Inl ZipNoFiles
      else
        (case (case find (\<lambda>p. p \<in> set names) preferred of
                 Some p \<Rightarrow> Inr p
               | None \<Rightarrow>
                   (case filter is_data_file names of
                      [] \<Rightarrow> Inl (ZipNoDataFile names)
                    | n # _ \<Rightarrow> Inr n)) of
           Inl e \<Rightarrow> Inl e
         | Inr chosen \<Rightarrow>
             (case zip_read zip_file chosen of
                Inl e \<Rightarrow> Inl e
              | Inr content \<Rightarrow> Inr (chosen, content))))"

section \<open>Floating-point values\<close>

text \<open>
  A Python \<^verbatim>\<open>float\<close> is a finite value, one of the two infinities, or not-a-number.
  Finite values are idealised as the real numbers they denote: the rounding to 53 bits,
  the range of a double and the sign of zero are not modelled.
\<close>

datatype pyfloat = Finite real | PosInf | NegInf | NaN

text \<open>
  \<^verbatim>\<open>float(s)\<close> on a string, after the language reference: white space around the text is
  stripped, a sign may lead, then \<open>inf\<close>, \<open>infinity\<close> or \<open>nan\<close> in any case, or a decimal
  number with an optional exponent. A run of digits may hold single underscores between
  digits. \<open>None\<close> stands for the \<^verbatim>\<open>ValueError\<close>, which every caller catches.
\<close>

fun digitpart :: "string \<Rightarrow> bool" where
  "digitpart [] = False"
| "digitpart [c] = is_digit c"
| "digitpart (c # u # cs) =
     (is_digit c \<and> (if u = CHR ''_'' then digitpart cs else digitpart (u # cs)))"

definition split_sign :: "string \<Rightarrow> bool \<times> string" where
  "split_sign s =
     (case s of
        [] \<Rightarrow> (False, [])
      | c # cs \<Rightarrow> if c = CHR ''-'' then (True, cs) else if c = CHR ''+'' then (False, cs) else (False, s))"

definition is_exp_mark :: "char \<Rightarrow> bool" where
  "is_exp_mark c = (c = CHR ''e'' \<or> c = CHR ''E'')"

definition float_exponent :: "string \<Rightarrow> int option" where
  "float_exponent s =
     (case s of
        [] \<Rightarrow> Some 0
      | _ # x \<Rightarrow>
          (let (neg, ds) = split_sign x in
           if digitpart ds
           then Some (if neg then - int_of_digits (filter is_digit ds) else int_of_digits (filter is_digit ds))
           else None))"

definition float_mantissa :: "string \<Rightarrow> (string \<times> string) option" where
  "float_mantissa m =
     (let ip = takeWhile (\<lambda>c. c \<noteq> CHR ''.'') m; r = dropWhile (\<lambda>c. c \<noteq> CHR ''.'') m in
      case r of
        [] \<Rightarrow> if digitpart ip then Some (filter is_digit ip, []) else None
      | _ # fp \<Rightarrow>
          if (ip = [] \<or> digitpart ip) \<and> (fp = [] \<or> digitpart fp) \<and> (ip \<noteq> [] \<or> fp \<noteq> [])
          then Some (filter is_digit ip, filter is_digit fp) else None)"

definition floatnumber :: "string \<Rightarrow> real option" where
  "floatnumber s =
     (case float_mantissa (takeWhile (\<lambda>c. \<not> is_exp_mark c) s) of
        None \<Rightarrow> None
      | Some (ip, fp) \<Rightarrow>
          (case float_exponent (dropWhile (\<lambda>c. \<not> is_exp_mark c) s) of
             None \<Rightarrow> None
           | Some e \<Rightarrow>
               (let m = real_of_int (int_of_digits (ip @ fp)) / 10 ^ length fp in
                Some (if 0 \<le> e then m * 10 ^ nat e else m / 10 ^ nat (- e)))))"

definition py_float :: "string \<Rightarrow> pyfloat option" where
  "py_float s =
     (let t = rev (dropWhile c_isspace (rev (dropWhile c_isspace s)));
          (neg, u) = split_sign t;
          l = lower u in
      if l = ''inf'' \<or> l = ''infinity'' then Some (if neg then NegInf else PosInf)
      else if l = ''nan'' then Some NaN
      else (case floatnumber u of
              None \<Rightarrow> None
            | Some v \<Rightarrow> Some (Finite (if neg then - v else v))))"

section \<open>Snapshots\<close>

text \<open>
  A \<^verbatim>\<open>dict\<close> is an association list in insertion order: \<^verbatim>\<open>d[k] = v\<close> is
  \<^const>\<open>AList.update\<close> (a key already there keeps its place), \<^verbatim>\<open>d.get(k)\<close> is
  \<^const>\<open>map_of\<close>.
\<close>

type_synonym rates_dict = "(string \<times> pyfloat) list"

record RatesSnapshot =
  as_of :: date
  rates :: rates_dict

text \<open>\<^verbatim>\<open>snapshots.sort(key=lambda s: s.as_of)\<close>, a stable sort.\<close>

definition sort_by_as_of :: "RatesSnapshot list \<Rightarrow> RatesSnapshot list" where
  "sort_by_as_of snapshots = sort_key (\<lambda>s. date_key (as_of s)) snapshots"

section \<open>The XML parser\<close>

text \<open>
  An \<^verbatim>\<open>ET.Element\<close>: tag, attributes and children. \<open>parse_ecb_xml\<close> takes the root that
  \<^verbatim>\<open>ET.fromstring(xml_text)\<close> returns; reading the text into the tree is not modelled.
\<close>

datatype element = Element (tag: string) (attrib: "(string \<times> string) list") (children: "element list")

text \<open>\<^verbatim>\<open>root.findall(".//*[@time]")\<close>: the elements below the root, in document order, that
  have a \<open>time\<close> attribute.\<close>

fun descendants :: "element \<Rightarrow> element list" where
  "descendants (Element t a cs) = concat (map (\<lambda>c. c # descendants c) cs)"

definition findall_time :: "element \<Rightarrow> element list" where
  "findall_time root_node = filter (\<lambda>e. map_of (attrib e) ''time'' \<noteq> None) (descendants root_node)"

text \<open>\<^verbatim>\<open>time_node.findall("./*[@currency][@rate]")\<close>: the children that have both
  attributes, each given by the two attribute values the loop reads from it.\<close>

definition findall_currency_rate :: "element \<Rightarrow> (string \<times> string) list" where
  "findall_currency_rate time_node =
     List.map_filter
       (\<lambda>n. case map_of (attrib n) ''currency'' of
               None \<Rightarrow> None
             | Some currency \<Rightarrow>
                 (case map_of (attrib n) ''rate'' of
                    None \<Rightarrow> None
                  | Some rate_str \<Rightarrow> Some (currency, rate_str)))
       (children time_node)"

text \<open>The inner loop (lines 83-92) and the outer loop (lines 75-94) of \<^verbatim>\<open>_parse_ecb_xml\<close>.\<close>

fun xml_rates :: "(string \<times> string) list \<Rightarrow> rates_dict \<Rightarrow> rates_dict" where
  "xml_rates [] rs = rs"
| "xml_rates ((currency, rate_str) # rate_nodes) rs =
     (case py_float rate_str of
        None \<Rightarrow> xml_rates rate_nodes rs
      | Some rate_value \<Rightarrow> xml_rates rate_nodes (AList.update currency rate_value rs))"

fun xml_snapshots :: "element list \<Rightarrow> RatesSnapshot list \<Rightarrow> error + RatesSnapshot list" where
  "xml_snapshots [] snapshots = Inr snapshots"
| "xml_snapshots (time_node # time_nodes) snapshots =
     (case map_of (attrib time_node) ''time'' of
        None \<Rightarrow> xml_snapshots time_nodes snapshots
      | Some time_str \<Rightarrow>
          (case parse_ecb_date time_str of
             Inl e \<Rightarrow> Inl e
           | Inr d \<Rightarrow>
               xml_snapshots time_nodes
                 (snapshots @ [\<lparr>as_of = d, rates = xml_rates (findall_currency_rate time_node) []\<rparr>])))"

definition parse_ecb_xml :: "element \<Rightarrow> error + RatesSnapshot list" where
  "parse_ecb_xml root_node =
     (case xml_snapshots (findall_time root_node) [] of
        Inl e \<Rightarrow> Inl e
      | Inr snapshots \<Rightarrow> Inr (sort_by_as_of snapshots))"

section \<open>The tabular parsers\<close>

text \<open>
  The parsers take the rows that \<^verbatim>\<open>csv.reader\<close> yields for the decoded text, each a list
  of cells; decoding and the splitting of the text into cells are not modelled.
  \<^verbatim>\<open>csv.DictReader\<close> is modelled: the first row gives the field names, empty rows are
  dropped, every other row becomes \<^verbatim>\<open>dict(zip(fieldnames, row))\<close>; the surplus cells of
  a long row are stored as a list under the key \<^verbatim>\<open>None\<close>, the missing cells of a short row
  are \<^verbatim>\<open>None\<close>.
\<close>

datatype csv_value = Str string | NoneValue | ListValue "string list"

type_synonym csv_dict = "(string option \<times> csv_value) list"

definition dict_of_row :: "string list \<Rightarrow> string list \<Rightarrow> csv_dict" where
  "dict_of_row fieldnames row =
     (let d = fold (\<lambda>(k, v). AList.update (Some k) (Str v)) (zip fieldnames row) [];
          lf = length fieldnames; lr = length row in
      if lf < lr then AList.update None (ListValue (drop lf row)) d
      else if lf > lr then fold (\<lambda>k. AList.update (Some k) NoneValue) (drop lr fieldnames) d
      else d)"

fun DictReader :: "string list list \<Rightarrow> csv_dict list" where
  "DictReader [] = []"
| "DictReader (fieldnames # rows) = map (dict_of_row fieldnames) (filter (\<lambda>row. row \<noteq> []) rows)"

text \<open>\<^verbatim>\<open>row.get(key)\<close> for a string key, and the truth value \<^verbatim>\<open>if date_str\<close> tests.\<close>

definition row_get :: "csv_dict \<Rightarrow> string \<Rightarrow> csv_value" where
  "row_get row k = (case map_of row (Some k) of None \<Rightarrow> NoneValue | Some v \<Rightarrow> v)"

fun truthy :: "csv_value \<Rightarrow> bool" where
  "truthy (Str s) = (s \<noteq> [])"
| "truthy NoneValue = False"
| "truthy (ListValue l) = (l \<noteq> [])"

text \<open>\<^verbatim>\<open>parse_ecb_date(date_str)\<close> on a value of a row: only a string can be stripped.\<close>

fun parse_date_value :: "csv_value \<Rightarrow> error + date" where
  "parse_date_value (Str s) = parse_ecb_date s"
| "parse_date_value _ = Inl AttributeError"

text \<open>
  The loop over \<^verbatim>\<open>row.items()\<close>, the same in both parsers (lines 119-128 and 146-155).
\<close>

fun csv_rates :: "csv_dict \<Rightarrow> rates_dict \<Rightarrow> error + rates_dict" where
  "csv_rates [] rs = Inr rs"
| "csv_rates ((None, v) # items) rs = Inl AttributeError"
| "csv_rates ((Some raw_ccy, v) # items) rs =
     (let ccy = upper (strip raw_ccy) in
      if ccy = ''DATE'' \<or> v = NoneValue then csv_rates items rs
      else
        (case v of
           NoneValue \<Rightarrow> csv_rates items rs
         | ListValue l \<Rightarrow> Inl AttributeError
         | Str cell \<Rightarrow>
             if strip cell = [] then csv_rates items rs
             else
               (case py_float cell of
                  None \<Rightarrow> csv_rates items rs
                | Some x \<Rightarrow> csv_rates items (AList.update ccy x rs))))"

definition parse_ecb_daily_csv :: "string list list \<Rightarrow> error + RatesSnapshot" where
  "parse_ecb_daily_csv reader_rows =
     (case DictReader reader_rows of
        [] \<Rightarrow> Inl DailyCsvNoRows
      | row # _ \<Rightarrow>
          (let date_str = row_get row ''Date'';
               date_str = (if \<not> truthy date_str then row_get row ''DATE'' else date_str) in
           if \<not> truthy date_str then Inl DailyCsvMissingDate
           else
             (case parse_date_value date_str of
                Inl e \<Rightarrow> Inl e
              | Inr d \<Rightarrow>
                  (case csv_rates row [] of
                     Inl e \<Rightarrow> Inl e
                   | Inr rs \<Rightarrow> Inr \<lparr>as_of = d, rates = rs\<rparr>))))"

fun hist_snapshots :: "csv_dict list \<Rightarrow> RatesSnapshot list \<Rightarrow> error + RatesSnapshot list" where
  "hist_snapshots [] snapshots = Inr snapshots"
| "hist_snapshots (row # rows) snapshots =
     (let date_str = (if truthy (row_get row ''Date'') then row_get row ''Date'' else row_get row ''DATE'') in
      if \<not> truthy date_str then hist_snapshots rows snapshots
      else
        (case parse_date_value date_str of
           Inl e \<Rightarrow> Inl e
         | Inr d \<Rightarrow>
             (case csv_rates row [] of
                Inl e \<Rightarrow> Inl e
              | Inr rs \<Rightarrow> hist_snapshots rows (snapshots @ [\<lparr>as_of = d, rates = rs\<rparr>]))))"

definition parse_ecb_hist_csv :: "string list list \<Rightarrow> error + RatesSnapshot list" where
  "parse_ecb_hist_csv reader_rows =
     (case hist_snapshots (DictReader reader_rows) [] of
        Inl e \<Rightarrow> Inl e
      | Inr snapshots \<Rightarrow> Inr (sort_by_as_of snapshots))"

section \<open>Loading the daily snapshot\<close>

text \<open>
  \<open>load_daily_entry\<close> is lines 167-177 of \<^verbatim>\<open>load_daily_snapshot\<close>: what is done with the
  entry the archive gave. The two readers are parameters: \<open>read_xml\<close> stands for
  \<^verbatim>\<open>payload.decode("utf-8")\<close> followed by \<^verbatim>\<open>ET.fromstring\<close>, \<open>read_csv\<close> for
  \<^verbatim>\<open>csv_bytes.decode("utf-8-sig")\<close> followed by \<^verbatim>\<open>csv.reader\<close>. \<open>load_daily_snapshot\<close>
  takes the archive that \<^verbatim>\<open>download_zip\<close> fetched, opened.
\<close>

definition load_daily_entry ::
  "('b \<Rightarrow> error + element) \<Rightarrow> ('b \<Rightarrow> error + string list list) \<Rightarrow> string \<Rightarrow> 'b \<Rightarrow> error + RatesSnapshot" where
  "load_daily_entry read_xml read_csv filename payload =
     (if endswith (lower filename) ''.xml'' then
        (case read_xml payload of
           Inl e \<Rightarrow> Inl e
         | Inr root_node \<Rightarrow>
             (case parse_ecb_xml root_node of
                Inl e \<Rightarrow> Inl e
              | Inr snapshots \<Rightarrow> if snapshots = [] then Inl NoDailyRates else Inr (last snapshots)))
      else if endswith (lower filename) ''.csv'' then
        (case read_csv payload of
           Inl e \<Rightarrow> Inl e
         | Inr reader_rows \<Rightarrow> parse_ecb_daily_csv reader_rows)
      else Inl (UnsupportedDailyFormat filename))"

definition load_daily_snapshot ::
  "('b \<Rightarrow> error + element) \<Rightarrow> ('b \<Rightarrow> error + string list list) \<Rightarrow> 'b zip_file \<Rightarrow> error + RatesSnapshot" where
  "load_daily_snapshot read_xml read_csv zip_file =
     (case read_single_file_from_zip zip_file of
        Inl e \<Rightarrow> Inl e
      | Inr (filename, payload) \<Rightarrow> load_daily_entry read_xml read_csv filename payload)"

section \<open>Historical means\<close>

text \<open>
  \<^verbatim>\<open>statistics.fmean(values)\<close> is \<^verbatim>\<open>math.fsum(values) / len(values)\<close>. \<^verbatim>\<open>fsum\<close> refuses a
  list with both infinities, and otherwise gives not-a-number if one is in the list, the
  infinity if one is in the list, and the sum of the values if all are finite.
\<close>

fun finite_value :: "pyfloat \<Rightarrow> real" where
  "finite_value (Finite r) = r"
| "finite_value _ = 0"

fun is_finite :: "pyfloat \<Rightarrow> bool" where
  "is_finite (Finite r) = True"
| "is_finite _ = False"

definition fsum :: "pyfloat list \<Rightarrow> error + pyfloat" where
  "fsum xs =
     (if PosInf \<in> set xs \<and> NegInf \<in> set xs then Inl FsumInfMinusInf
      else if NaN \<in> set xs then Inr NaN
      else if PosInf \<in> set xs then Inr PosInf
      else if NegInf \<in> set xs then Inr NegInf
      else Inr (Finite (sum_list (map finite_value xs))))"

fun div_by_count :: "pyfloat \<Rightarrow> nat \<Rightarrow> pyfloat" where
  "div_by_count (Finite r) n = Finite (r / real n)"
| "div_by_count x n = x"

definition fmean :: "pyfloat list \<Rightarrow> error + pyfloat" where
  "fmean data =
     (if data = [] then Inl StatisticsError
      else (case fsum data of Inl e \<Rightarrow> Inl e | Inr s \<Rightarrow> Inr (div_by_count s (length data))))"

text \<open>
  \<^verbatim>\<open>compute_historical_means\<close>: the buckets (line 212), the filling of the buckets by
  one snapshot (lines 215-218), by all of them (line 214), and the means of the
  buckets that are not empty (lines 220-224).
\<close>

type_synonym buckets_dict = "(string \<times> pyfloat list) list"

definition new_buckets :: "string list \<Rightarrow> buckets_dict" where
  "new_buckets currencies = fold (\<lambda>ccy. AList.update ccy []) currencies []"

definition fill_buckets :: "RatesSnapshot \<Rightarrow> buckets_dict \<Rightarrow> buckets_dict" where
  "fill_buckets snap buckets =
     map (\<lambda>(ccy, vals). (ccy, case map_of (rates snap) ccy of None \<Rightarrow> vals | Some v \<Rightarrow> vals @ [v])) buckets"

fun bucket_means :: "buckets_dict \<Rightarrow> rates_dict \<Rightarrow> error + rates_dict" where
  "bucket_means [] means = Inr means"
| "bucket_means ((ccy, vals) # items) means =
     (if vals = [] then bucket_means items means
      else (case fmean vals of
              Inl e \<Rightarrow> Inl e
            | Inr m \<Rightarrow> bucket_means items (AList.update ccy m means)))"

definition compute_historical_means :: "RatesSnapshot list \<Rightarrow> string list \<Rightarrow> error + rates_dict" where
  "compute_historical_means historical currencies =
     bucket_means (fold fill_buckets historical (new_buckets currencies)) []"

section \<open>The report\<close>

text \<open>
  \<^verbatim>\<open>f"{x:.6f}"\<close>: the sign, the integer part, a point and six digits, the value rounded
  to the nearest millionth, a tie to the even one. An infinity and not-a-number print as
  words.
\<close>

definition round_half_even :: "real \<Rightarrow> int" where
  "round_half_even x =
     (let f = \<lfloor>x\<rfloor>; d = x - of_int f in
      if d < 1 / 2 then f else if 1 / 2 < d then f + 1 else if even f then f else f + 1)"

fun format_6f :: "pyfloat \<Rightarrow> string" where
  "format_6f (Finite r) =
     (let n = round_half_even (\<bar>r\<bar> * 1000000) in
      (if r < 0 then ''-'' else []) @ digits_of_int (n div 1000000) @ ''.'' @ zero_pad 6 (n mod 1000000))"
| "format_6f PosInf = ''inf''"
| "format_6f NegInf = ''-inf''"
| "format_6f NaN = ''nan''"

text \<open>\<^verbatim>\<open>d.isoformat()\<close> and \<^verbatim>\<open>sep.join(lines)\<close>.\<close>

definition isoformat :: "date \<Rightarrow> string" where
  "isoformat d = zero_pad 4 (year d) @ ''-'' @ zero_pad 2 (month d) @ ''-'' @ zero_pad 2 (day d)"

fun join :: "string \<Rightarrow> string list \<Rightarrow> string" where
  "join sep [] = []"
| "join sep [l] = l"
| "join sep (l # ls) = l @ sep @ join sep ls"

definition newline :: string where
  "newline = [CHR 0x0A]"

definition cell :: "pyfloat option \<Rightarrow> string" where
  "cell x = (case x of None \<Rightarrow> ''N/A'' | Some v \<Rightarrow> format_6f v)"

definition table_row :: "RatesSnapshot \<Rightarrow> rates_dict \<Rightarrow> string \<Rightarrow> string" where
  "table_row daily means ccy =
     (let rate = map_of (rates daily) ccy; mean = map_of means ccy;
          rate_cell = cell rate; mean_cell = cell mean in
      ''| '' @ ccy @ '' | '' @ rate_cell @ '' | '' @ mean_cell @ '' |'')"

definition render_markdown_table :: "RatesSnapshot \<Rightarrow> rates_dict \<Rightarrow> string list \<Rightarrow> string" where
  "render_markdown_table daily means currencies =
     join newline
       ([''# ECB Exchange Rates (EUR base)'' @ newline,
         ''**Daily rates date:** '' @ isoformat (as_of daily) @ newline,
         ''| Currency Code | Rate | Mean Historical Rate |'',
         ''|---|---:|---:|'']
        @ map (table_row daily means) currencies
        @ [[]])"

section \<open>The archive: which entry is read\<close>

lemma case_filter_find:
  "(case filter P xs of [] \<Rightarrow> a | x # _ \<Rightarrow> b x) = (case find P xs of None \<Rightarrow> a | Some x \<Rightarrow> b x)"
  by (induction xs) auto

lemma zip_read_member:
  assumes "n \<in> set (namelist z)"
  shows "\<exists>c. zip_read z n = Inr c \<and> map_of (rev z) n = Some c"
proof -
  from assms have "n \<in> fst ` set (rev z)" by (simp add: namelist_def)
  then obtain c where "map_of (rev z) n = Some c"
    by (metis domD dom_map_of_conv_image_fst)
  then show ?thesis by (simp add: zip_read_def)
qed

lemma find_member: "find P xs = Some x \<Longrightarrow> x \<in> set xs \<and> P x"
  by (induction xs) (auto split: if_splits)

text \<open>
  Claim C3. For an archive with at least one entry, the name chosen is the first name of
  the preference list (daily XML, historical XML, daily CSV, historical CSV, in this
  order) that is among the entries, wherever it is listed; if none is, it is the first
  entry in listing order whose name ends in \<open>.xml\<close> or \<open>.csv\<close>, whatever the case of its
  letters; the content returned is the content the archive holds under the chosen name.
\<close>

theorem read_single_file_from_zip_policy:
  assumes "namelist z \<noteq> []"
  shows "map_sum id fst (read_single_file_from_zip z) =
           (if ''eurofxref-daily.xml'' \<in> set (namelist z) then Inr ''eurofxref-daily.xml''
            else if ''eurofxref-hist.xml'' \<in> set (namelist z) then Inr ''eurofxref-hist.xml''
            else if ''eurofxref.csv'' \<in> set (namelist z) then Inr ''eurofxref.csv''
            else if ''eurofxref-hist.csv'' \<in> set (namelist z) then Inr ''eurofxref-hist.csv''
            else (case find is_data_file (namelist z) of
                    Some n \<Rightarrow> Inr n
                  | None \<Rightarrow> Inl (ZipNoDataFile (namelist z))))
         \<and> (\<forall>n c. read_single_file_from_zip z = Inr (n, c) \<longrightarrow> map_of (rev z) n = Some c)"
proof -
  define chosen where "chosen =
    (case find (\<lambda>p. p \<in> set (namelist z)) preferred of
       Some p \<Rightarrow> Inr p
     | None \<Rightarrow> (case filter is_data_file (namelist z) of
                  [] \<Rightarrow> Inl (ZipNoDataFile (namelist z))
                | n # _ \<Rightarrow> Inr n))"
  have unfold: "read_single_file_from_zip z =
      (case chosen of Inl e \<Rightarrow> Inl e
       | Inr n \<Rightarrow> (case zip_read z n of Inl e \<Rightarrow> Inl e | Inr c \<Rightarrow> Inr (n, c)))"
    using assms by (simp add: read_single_file_from_zip_def chosen_def Let_def)
  have policy: "chosen =
      (if ''eurofxref-daily.xml'' \<in> set (namelist z) then Inr ''eurofxref-daily.xml''
       else if ''eurofxref-hist.xml'' \<in> set (namelist z) then Inr ''eurofxref-hist.xml''
       else if ''eurofxref.csv'' \<in> set (namelist z) then Inr ''eurofxref.csv''
       else if ''eurofxref-hist.csv'' \<in> set (namelist z) then Inr ''eurofxref-hist.csv''
       else (case find is_data_file (namelist z) of
               Some n \<Rightarrow> Inr n
             | None \<Rightarrow> Inl (ZipNoDataFile (namelist z))))"
    unfolding chosen_def case_filter_find by (simp add: preferred_def split: option.splits)
  have listed: "n \<in> set (namelist z)" if "chosen = Inr n" for n
    using that unfolding policy by (auto split: if_splits option.splits dest: find_member)
  have name: "map_sum id fst (read_single_file_from_zip z) = chosen"
  proof (cases chosen)
    case (Inl e)
    then show ?thesis by (simp add: unfold)
  next
    case (Inr n)
    with listed zip_read_member obtain c where "zip_read z n = Inr c" by blast
    with Inr show ?thesis by (simp add: unfold)
  qed
  have content: "map_of (rev z) n = Some c" if "read_single_file_from_zip z = Inr (n, c)" for n c
  proof -
    from that have "chosen = Inr n" "zip_read z n = Inr c"
      by (auto simp: unfold split: sum.splits)
    then show ?thesis by (auto simp: zip_read_def split: option.splits)
  qed
  from name policy content show ?thesis by simp
qed

theorem read_single_file_from_zip_policy_witness:
  "map_sum id fst (read_single_file_from_zip
       [(''b.csv'', 1::nat), (''eurofxref-hist.xml'', 2), (''eurofxref-daily.xml'', 3)])
     = Inr ''eurofxref-daily.xml''
   \<and> map_sum id fst (read_single_file_from_zip
       [(''notes.txt'', 1::nat), (''B.CSV'', 2), (''a.xml'', 3)])
     = Inr ''B.CSV''"
proof -
  have h1: "namelist [(''b.csv'', 1::nat), (''eurofxref-hist.xml'', 2), (''eurofxref-daily.xml'', 3)] \<noteq> []"
    by (simp add: namelist_def)
  have h2: "namelist [(''notes.txt'', 1::nat), (''B.CSV'', 2), (''a.xml'', 3)] \<noteq> []"
    by (simp add: namelist_def)
  have d: "\<not> is_data_file ''notes.txt''" "is_data_file ''B.CSV''"
    by code_simp+
  show ?thesis
    using read_single_file_from_zip_policy [OF h1] read_single_file_from_zip_policy [OF h2] d
    by (simp add: namelist_def)
qed

lemma preferred_are_data_files: "p \<in> set preferred \<Longrightarrow> is_data_file p"
proof -
  have "list_all is_data_file preferred" by code_simp
  then show "p \<in> set preferred \<Longrightarrow> is_data_file p" by (simp add: list_all_iff)
qed

lemma find_None_iff': "find P xs = None \<longleftrightarrow> (\<forall>x\<in>set xs. \<not> P x)"
  by (induction xs) auto

text \<open>
  Claim C4. An archive with no entry is refused with \<open>ZipNoFiles\<close> (the spec's
  EmptyArchiveError). An archive with entries none of which has a name ending in \<open>.xml\<close>
  or \<open>.csv\<close> (so none of the preferred names is present either, by
  \<open>preferred_are_data_files\<close>) is refused with \<open>ZipNoDataFile\<close> (the spec's
  UnsupportedArchiveError), which carries the names of all the entries.
\<close>

theorem read_single_file_from_zip_errors:
  "read_single_file_from_zip ([] :: 'b zip_file) = Inl ZipNoFiles
   \<and> ((z :: 'b zip_file) \<noteq> [] \<longrightarrow> (\<forall>n\<in>set (namelist z). \<not> is_data_file n)
        \<longrightarrow> read_single_file_from_zip z = Inl (ZipNoDataFile (namelist z)))"
proof (intro conjI impI)
  show "read_single_file_from_zip ([] :: 'b zip_file) = Inl ZipNoFiles"
    by (simp add: read_single_file_from_zip_def namelist_def)
next
  assume ne: "z \<noteq> []" and none: "\<forall>n\<in>set (namelist z). \<not> is_data_file n"
  from ne have names: "namelist z \<noteq> []" by (simp add: namelist_def)
  from none have "\<forall>p\<in>set preferred. p \<notin> set (namelist z)"
    using preferred_are_data_files by blast
  then have pref: "find (\<lambda>p. p \<in> set (namelist z)) preferred = None"
    by (simp add: find_None_iff')
  from none have data: "filter is_data_file (namelist z) = []" by simp
  show "read_single_file_from_zip z = Inl (ZipNoDataFile (namelist z))"
    using names pref data by (simp add: read_single_file_from_zip_def Let_def)
qed

theorem read_single_file_from_zip_errors_witness:
  "[(''readme.txt'', 0::nat), (''rates.json'', 1)] \<noteq> []
   \<and> read_single_file_from_zip [(''readme.txt'', 0::nat), (''rates.json'', 1)]
       = Inl (ZipNoDataFile [''readme.txt'', ''rates.json''])"
proof -
  have h: "\<forall>n\<in>set (namelist [(''readme.txt'', 0::nat), (''rates.json'', 1)]). \<not> is_data_file n"
    unfolding namelist_def by (simp, code_simp)
  show ?thesis
    using read_single_file_from_zip_errors [of "[(''readme.txt'', 0::nat), (''rates.json'', 1)]"] h
    by (simp add: namelist_def)
qed

section \<open>The date parser\<close>

lemma strip_surrounding:
  assumes "list_all py_isspace l" and "list_all py_isspace r"
  shows "strip (l @ s @ r) = strip s"
proof -
  have left: "dropWhile py_isspace (l @ s @ r) = dropWhile py_isspace (s @ r)"
    using assms(1) by (simp add: list_all_iff dropWhile_append2)
  have right: "dropWhile py_isspace (rev r @ t) = dropWhile py_isspace t" for t
    using assms(2) by (intro dropWhile_append2) (simp add: list_all_iff)
  show ?thesis
  proof (cases "\<forall>x\<in>set s. py_isspace x")
    case True
    with assms(2) have "\<forall>x\<in>set (s @ r). py_isspace x"
      by (auto simp: list_all_iff)
    then have "dropWhile py_isspace (s @ r) = []"
      by (simp only: dropWhile_eq_Nil_conv)
    moreover from True have "dropWhile py_isspace s = []" by simp
    ultimately show ?thesis by (simp only: strip_def left rev.simps dropWhile.simps)
  next
    case False
    then obtain x where "x \<in> set s" "\<not> py_isspace x" by blast
    then have "dropWhile py_isspace (s @ r) = dropWhile py_isspace s @ r"
      by (simp add: dropWhile_append1)
    then show ?thesis by (simp add: strip_def left right)
  qed
qed

lemma digit_char_digit:
  assumes "0 \<le> k" and "k < 10"
  shows "is_digit (digit_char k) \<and> digit_value (digit_char k) = k"
proof -
  from assms have "k = 0 \<or> k = 1 \<or> k = 2 \<or> k = 3 \<or> k = 4 \<or> k = 5 \<or> k = 6 \<or> k = 7 \<or> k = 8 \<or> k = 9"
    by arith
  then show ?thesis
    by (elim disjE) (simp_all add: digit_char_def is_digit_def digit_value_def)
qed

lemma int_of_digits_snoc: "int_of_digits (xs @ [c]) = 10 * int_of_digits xs + digit_value c"
  by (simp add: int_of_digits_def)

lemma int_of_digits_zeros: "int_of_digits (replicate k CHR ''0'' @ ds) = int_of_digits ds"
proof -
  have "foldl (\<lambda>a c. 10 * a + digit_value c) 0 (replicate k CHR ''0'') = 0"
    by (induction k) (simp_all add: digit_value_def)
  then show ?thesis by (simp add: int_of_digits_def)
qed

lemma digits_of_int_digits: "0 \<le> n \<Longrightarrow> list_all is_digit (digits_of_int n)"
proof (induction n rule: digits_of_int.induct)
  case (1 n)
  show ?case
  proof (cases "n < 10")
    case True
    with "1.prems" show ?thesis
      by (subst digits_of_int.simps) (simp add: digit_char_digit)
  next
    case False
    with "1.prems" have "list_all is_digit (digits_of_int (n div 10))"
      by (intro "1.IH") simp_all
    moreover have "is_digit (digit_char (n mod 10))"
      by (simp add: digit_char_digit)
    ultimately show ?thesis using False
      by (subst digits_of_int.simps) simp
  qed
qed

lemma digits_of_int_value: "0 \<le> n \<Longrightarrow> int_of_digits (digits_of_int n) = n"
proof (induction n rule: digits_of_int.induct)
  case (1 n)
  show ?case
  proof (cases "n < 10")
    case True
    with "1.prems" show ?thesis
      by (subst digits_of_int.simps) (simp add: int_of_digits_def digit_char_digit)
  next
    case False
    with "1.prems" have "int_of_digits (digits_of_int (n div 10)) = n div 10"
      by (intro "1.IH") simp_all
    moreover have "digit_value (digit_char (n mod 10)) = n mod 10"
      by (simp add: digit_char_digit)
    ultimately show ?thesis using False
      by (subst digits_of_int.simps) (simp add: int_of_digits_snoc)
  qed
qed

lemma digits_of_int_nonempty: "digits_of_int n \<noteq> []"
  by (subst digits_of_int.simps) simp

lemma digits_of_int_length: "0 \<le> n \<Longrightarrow> n < 10 ^ w \<Longrightarrow> 0 < w \<Longrightarrow> length (digits_of_int n) \<le> w"
proof (induction n arbitrary: w rule: digits_of_int.induct)
  case (1 n)
  show ?case
  proof (cases "n < 10")
    case True
    with "1.prems" show ?thesis
      by (subst digits_of_int.simps) simp
  next
    case False
    have w: "1 < w"
    proof (rule ccontr)
      assume "\<not> 1 < w"
      with "1.prems"(3) have "w = 1" by simp
      with "1.prems"(2) False show False by simp
    qed
    then obtain v where v: "w = Suc v" "0 < v" by (cases w) auto
    with "1.prems"(2) have "n div 10 < 10 ^ v" by simp
    with "1.prems"(1) False v have "length (digits_of_int (n div 10)) \<le> v"
      by (intro "1.IH") simp_all
    with False v show ?thesis
      by (subst digits_of_int.simps) simp
  qed
qed

lemma zero_pad_props:
  assumes "0 \<le> n" and "n < 10 ^ w" and "0 < w"
  shows "length (zero_pad w n) = w" and "list_all is_digit (zero_pad w n)"
    and "int_of_digits (zero_pad w n) = n"
proof -
  have d: "is_digit CHR ''0''" by (simp add: is_digit_def)
  from assms show "length (zero_pad w n) = w"
    using digits_of_int_length [of n w] by (simp add: zero_pad_def Let_def)
  from assms(1) show "list_all is_digit (zero_pad w n)"
    using digits_of_int_digits [of n] d by (auto simp: zero_pad_def Let_def list_all_iff)
  from assms(1) show "int_of_digits (zero_pad w n) = n"
    by (simp add: zero_pad_def Let_def int_of_digits_zeros digits_of_int_value)
qed

lemma is_digit_facts:
  assumes "is_digit c"
  shows "(of_char c :: nat) < 128" and "c \<noteq> CHR ''W''" and "c \<noteq> CHR ''-''" and "\<not> py_isspace c"
  using assms by (auto simp: is_digit_def py_isspace_def Let_def)

lemma not_digit_facts: "\<not> is_digit CHR ''-''" "\<not> is_digit CHR '' ''" "py_isspace CHR '' ''"
  by (simp_all add: is_digit_def py_isspace_def)

lemma fromisoformat_calendar:
  assumes "list_all is_digit [y1, y2, y3, y4, m1, m2, d1, d2]"
  shows "fromisoformat [y1, y2, y3, y4, CHR ''-'', m1, m2, CHR ''-'', d1, d2]
           = make_date (int_of_digits [y1, y2, y3, y4]) (int_of_digits [m1, m2]) (int_of_digits [d1, d2])"
proof -
  from assms have len: "utf8_length [y1, y2, y3, y4, CHR ''-'', m1, m2, CHR ''-'', d1, d2] = 10"
    by (simp add: utf8_length_def is_digit_facts(1))
  from assms have m: "m1 \<noteq> CHR ''W''" by (simp add: is_digit_facts(2))
  from assms m have "parse_isoformat_date [y1, y2, y3, y4, CHR ''-'', m1, m2, CHR ''-'', d1, d2] 10
      = Some (int_of_digits [y1, y2, y3, y4], int_of_digits [m1, m2], int_of_digits [d1, d2])"
    by (simp add: parse_isoformat_date_def parse_digits_def starts_with_def)
  with len show ?thesis by (simp add: fromisoformat_def)
qed

lemma strptime_calendar_refused:
  assumes "list_all is_digit [y1, y2, y3, y4]"
  shows "strptime_dBY ([y1, y2, y3, y4, CHR ''-''] @ rest) = None"
proof -
  from assms have "takeWhile is_digit ([y1, y2, y3, y4, CHR ''-''] @ rest) = [y1, y2, y3, y4]"
    by (simp add: not_digit_facts)
  then show ?thesis by (simp add: strptime_dBY_def Let_def)
qed

lemma parse_ecb_date_unfold:
  "parse_ecb_date s =
     (case fromisoformat (strip s) of
        Some d \<Rightarrow> Inr d
      | None \<Rightarrow> (case strptime_dBY (strip s) of
                   Some d \<Rightarrow> Inr d
                 | None \<Rightarrow> Inl (DateValueError (strip s))))"
  by (simp add: parse_ecb_date_def Let_def)

lemma parse_ecb_date_calendar_form:
  assumes "iso_calendar_form (strip s)"
  shows "parse_ecb_date s =
     (case make_date (int_of_digits (take 4 (strip s))) (int_of_digits (take 2 (drop 5 (strip s))))
             (int_of_digits (drop 8 (strip s))) of
        Some d \<Rightarrow> Inr d
      | None \<Rightarrow> Inl (DateValueError (strip s)))"
proof -
  from assms obtain y1 y2 y3 y4 m1 m2 d1 d2 where
    t: "strip s = [y1, y2, y3, y4, CHR ''-'', m1, m2, CHR ''-'', d1, d2]"
    and d: "list_all is_digit [y1, y2, y3, y4, m1, m2, d1, d2]"
    by (auto elim!: iso_calendar_form.elims)
  from d have "list_all is_digit [y1, y2, y3, y4]" by simp
  from strptime_calendar_refused [OF this, of "[m1, m2, CHR ''-'', d1, d2]"]
  have refused: "strptime_dBY (strip s) = None" by (simp add: t)
  have "fromisoformat (strip s) = make_date (int_of_digits (take 4 (strip s)))
      (int_of_digits (take 2 (drop 5 (strip s)))) (int_of_digits (drop 8 (strip s)))"
    using fromisoformat_calendar [OF d] by (simp add: t)
  with refused show ?thesis
    by (simp add: parse_ecb_date_unfold split: option.splits)
qed

lemma length4: "length xs = 4 \<Longrightarrow> \<exists>a b c d. xs = [a, b, c, d]"
  by (cases xs; simp; cases "tl xs"; simp; cases "tl (tl xs)"; simp; cases "tl (tl (tl xs))"; simp)

lemma length2: "length xs = 2 \<Longrightarrow> \<exists>a b. xs = [a, b]"
  by (cases xs; simp; cases "tl xs"; simp)

lemma make_date_range:
  assumes "make_date y m d = Some dt"
  shows "1 \<le> y" "y \<le> 9999" "1 \<le> m" "m \<le> 12" "1 \<le> d" "d \<le> 31"
    "dt = \<lparr>year = y, month = m, day = d\<rparr>"
  using assms by (auto simp: make_date_def days_in_month_def split: if_splits)

lemma isoformat_calendar_form:
  assumes "make_date y m d = Some dt"
  shows "iso_calendar_form (isoformat dt)"
    and "fromisoformat (isoformat dt) = Some dt"
proof -
  note r = make_date_range [OF assms]
  from r have py: "length (zero_pad 4 y) = 4" "list_all is_digit (zero_pad 4 y)" "int_of_digits (zero_pad 4 y) = y"
    by (simp_all add: zero_pad_props)
  from r have pm: "length (zero_pad 2 m) = 2" "list_all is_digit (zero_pad 2 m)" "int_of_digits (zero_pad 2 m) = m"
    by (simp_all add: zero_pad_props)
  from r have pd: "length (zero_pad 2 d) = 2" "list_all is_digit (zero_pad 2 d)" "int_of_digits (zero_pad 2 d) = d"
    by (simp_all add: zero_pad_props)
  from py(1) obtain y1 y2 y3 y4 where ey: "zero_pad 4 y = [y1, y2, y3, y4]" using length4 by blast
  from pm(1) obtain m1 m2 where em: "zero_pad 2 m = [m1, m2]" using length2 by blast
  from pd(1) obtain d1 d2 where ed: "zero_pad 2 d = [d1, d2]" using length2 by blast
  have t: "isoformat dt = [y1, y2, y3, y4, CHR ''-'', m1, m2, CHR ''-'', d1, d2]"
    by (simp add: isoformat_def r(7) ey em ed)
  from py(2) pm(2) pd(2) have digits: "list_all is_digit [y1, y2, y3, y4, m1, m2, d1, d2]"
    by (simp add: ey em ed)
  then show "iso_calendar_form (isoformat dt)" by (simp add: t)
  from py(3) pm(3) pd(3) have "make_date (int_of_digits [y1, y2, y3, y4]) (int_of_digits [m1, m2])
      (int_of_digits [d1, d2]) = Some dt"
    by (simp add: ey em ed assms)
  with fromisoformat_calendar [OF digits] show "fromisoformat (isoformat dt) = Some dt"
    by (simp add: t)
qed

lemma strip_unspaced:
  assumes "s \<noteq> []" and "\<not> py_isspace (hd s)" and "\<not> py_isspace (last s)"
  shows "strip s = s"
proof -
  from assms have a: "dropWhile py_isspace s = s" by (cases s) simp_all
  from assms have "rev s \<noteq> []" "\<not> py_isspace (hd (rev s))" by (simp_all add: hd_rev)
  then have "dropWhile py_isspace (rev s) = rev s" by (cases "rev s") simp_all
  with a show ?thesis by (simp add: strip_def)
qed

lemma parse_ecb_date_isoformat:
  assumes "make_date y m d = Some dt"
  shows "parse_ecb_date (isoformat dt) = Inr dt"
proof -
  note r = make_date_range [OF assms]
  from r have py: "length (zero_pad 4 y) = 4" "list_all is_digit (zero_pad 4 y)"
    by (simp_all add: zero_pad_props)
  from r have pd: "length (zero_pad 2 d) = 2" "list_all is_digit (zero_pad 2 d)"
    by (simp_all add: zero_pad_props)
  from py obtain y1 ys where ey: "zero_pad 4 y = y1 # ys" "is_digit y1" by (cases "zero_pad 4 y") auto
  from pd have ne: "zero_pad 2 d \<noteq> []" by auto
  then have "last (zero_pad 2 d) \<in> set (zero_pad 2 d)" by simp
  with pd(2) ne have "zero_pad 2 d \<noteq> []" "is_digit (last (zero_pad 2 d))"
    by (simp_all add: list_all_iff)
  then have "isoformat dt \<noteq> []" "\<not> py_isspace (hd (isoformat dt))" "\<not> py_isspace (last (isoformat dt))"
    using ey by (simp_all add: isoformat_def r(7) is_digit_facts(4))
  then have "strip (isoformat dt) = isoformat dt" by (rule strip_unspaced)
  then show ?thesis
    by (simp add: parse_ecb_date_unfold isoformat_calendar_form(2) [OF assms])
qed

lemma index_of_nth: "distinct xs \<Longrightarrow> i < length xs \<Longrightarrow> index_of (xs ! i) xs = Some i"
proof (induction xs arbitrary: i)
  case Nil
  then show ?case by simp
next
  case (Cons x xs)
  then show ?case by (cases i) auto
qed

lemma month_names_facts:
  "distinct month_names" "length month_names = 12"
  "\<forall>n\<in>set month_names. n \<noteq> [] \<and> (\<forall>c\<in>set n. \<not> py_isspace c)"
  by (simp_all add: month_names_def py_isspace_def)

lemma lower_char_space: "py_isspace c \<Longrightarrow> lower_char c = c"
  by (auto simp: py_isspace_def lower_char_def Let_def)

lemma month_text_facts:
  assumes "lower b = month_names ! i" and "i < 12"
  shows "b \<noteq> []" and "\<forall>c\<in>set b. \<not> py_isspace c"
proof -
  from assms(2) have n: "month_names ! i \<in> set month_names"
    by (simp add: month_names_facts(2))
  with month_names_facts(3) have ne: "month_names ! i \<noteq> []"
    and ns: "\<forall>c\<in>set (month_names ! i). \<not> py_isspace c" by blast+
  from ne assms(1) show "b \<noteq> []" by (auto simp: lower_def)
  show "\<forall>c\<in>set b. \<not> py_isspace c"
  proof
    fix c assume c: "c \<in> set b"
    show "\<not> py_isspace c"
    proof
      assume sp: "py_isspace c"
      from c have "lower_char c \<in> set (lower b)" by (simp add: lower_def)
      with sp have "c \<in> set (month_names ! i)" by (simp add: lower_char_space assms(1))
      with ns sp show False by blast
    qed
  qed
qed

lemma strptime_tokens:
  assumes ds: "list_all is_digit ds"
      and b: "b \<noteq> []" "\<forall>c\<in>set b. \<not> py_isspace c"
      and ys: "ys \<noteq> []" "list_all is_digit ys"
  shows "strptime_dBY (ds @ '' '' @ b @ '' '' @ ys) =
     (if (length ds = 1 \<or> length ds = 2) \<and> 1 \<le> int_of_digits ds \<and> int_of_digits ds \<le> 31 \<and> length ys = 4
      then (case index_of (lower b) month_names of
              None \<Rightarrow> None
            | Some i \<Rightarrow> make_date (int_of_digits ys) (int i + 1) (int_of_digits ds))
      else None)"
proof -
  let ?r1 = "'' '' @ b @ '' '' @ ys"
  let ?r2 = "b @ '' '' @ ys"
  let ?r3 = "'' '' @ ys"
  from ds have d1: "takeWhile is_digit (ds @ ?r1) = ds" "dropWhile is_digit (ds @ ?r1) = ?r1"
    by (simp_all add: list_all_iff takeWhile_append2 dropWhile_append2 not_digit_facts)
  from b obtain c b' where bc: "b = c # b'" "\<not> py_isspace c" by (cases b) auto
  have w1: "takeWhile py_isspace ?r1 = '' ''" "dropWhile py_isspace ?r1 = ?r2"
    by (simp_all add: bc not_digit_facts)
  from b(2) have tb: "takeWhile (\<lambda>c. \<not> py_isspace c) ?r2 = b"
      "dropWhile (\<lambda>c. \<not> py_isspace c) ?r2 = ?r3"
    by (simp_all add: takeWhile_append2 dropWhile_append2 not_digit_facts)
  from ys obtain y1 ys' where yc: "ys = y1 # ys'" "\<not> py_isspace y1"
    by (cases ys) (auto simp: is_digit_facts(4))
  have w2: "takeWhile py_isspace ?r3 = '' ''" "dropWhile py_isspace ?r3 = ys"
    by (simp_all add: yc not_digit_facts)
  show ?thesis
    unfolding strptime_dBY_def Let_def d1 w1 tb w2 using ys(2) by simp
qed

lemma fromisoformat_needs_four_digits:
  assumes "length ds < 4"
  shows "fromisoformat (ds @ '' '' @ rest) = None"
proof -
  define xs where "xs = ds @ '' '' @ rest"
  have n: "length ds < length (take 4 xs)"
    using assms by (simp add: xs_def)
  have "take 4 xs ! length ds = xs ! length ds"
    using assms by simp
  also have "\<dots> = CHR '' ''"
    by (simp add: xs_def)
  finally have "CHR '' '' \<in> set (take 4 xs)"
    using n nth_mem by metis
  then have "\<not> list_all is_digit (take 4 xs)"
    using not_digit_facts(2) by (auto simp: list_all_iff)
  then have "parse_isoformat_date xs n = None" for n
    by (simp add: parse_isoformat_date_def parse_digits_def)
  then show ?thesis by (simp add: fromisoformat_def Let_def xs_def)
qed

lemma parse_ecb_date_long_form:
  assumes "make_date y m d = Some dt" and "lower b = month_names ! nat (m - 1)"
  shows "parse_ecb_date (digits_of_int d @ '' '' @ b @ '' '' @ zero_pad 4 y) = Inr dt"
proof -
  note r = make_date_range [OF assms(1)]
  let ?ds = "digits_of_int d"
  let ?ys = "zero_pad 4 y"
  let ?t = "?ds @ '' '' @ b @ '' '' @ ?ys"
  from r have ds: "list_all is_digit ?ds" "int_of_digits ?ds = d" "length ?ds \<le> 2" "?ds \<noteq> []"
    using digits_of_int_length [of d 2]
    by (simp_all add: digits_of_int_digits digits_of_int_value digits_of_int_nonempty)
  from ds(4) have "length ?ds \<noteq> 0" by simp
  with ds(3) have len: "length ?ds = 1 \<or> length ?ds = 2" by arith
  from r have ys: "length ?ys = 4" "list_all is_digit ?ys" "int_of_digits ?ys = y"
    by (simp_all add: zero_pad_props)
  then have ysne: "?ys \<noteq> []" by auto
  from r have i: "nat (m - 1) < 12" "int (nat (m - 1)) + 1 = m" by simp_all
  note bf = month_text_facts [OF assms(2) i(1)]
  have idx: "index_of (lower b) month_names = Some (nat (m - 1))"
    using i(1) by (simp add: assms(2) index_of_nth month_names_facts)
  have long: "strptime_dBY ?t = Some dt"
    using strptime_tokens [OF ds(1) bf ysne ys(2)] len r ds(2) ys(1,3) idx i(2) assms(1)
    by simp
  from ds(3) have iso: "fromisoformat ?t = None"
    by (intro fromisoformat_needs_four_digits) simp
  from ds obtain c cs where "?ds = c # cs" "is_digit c" by (cases ?ds) auto
  then have h: "\<not> py_isspace (hd ?t)" by (simp add: is_digit_facts(4))
  from ysne have "last ?t = last ?ys" by simp
  moreover from ysne have "last ?ys \<in> set ?ys" by simp
  ultimately have l: "\<not> py_isspace (last ?t)"
    using ys(2) by (simp add: list_all_iff is_digit_facts(4) del: last_append last.simps)
  from ds(4) have "?t \<noteq> []" by simp
  then have "strip ?t = ?t" using h l by (rule strip_unspaced)
  with iso long show ?thesis by (simp add: parse_ecb_date_unfold)
qed

text \<open>
  Claim C5, as the code has it. \<open>parse_ecb_date\<close> strips the white space around the text,
  gives the text to \<^verbatim>\<open>date.fromisoformat\<close> first and to the reader of the long form when
  that refuses, and fails with \<open>DateValueError\<close> (the spec's FormatError), which carries the
  stripped text, when both refuse. A text of the form \<open>YYYY-MM-DD\<close> gives the date of its
  three numbers, or the error if there is no such date; every date of the calendar is
  read back from its ISO text, and from its long form, day, full English month name in
  any letter case, year. \<^verbatim>\<open>date.fromisoformat\<close> reads more than \<open>YYYY-MM-DD\<close>: the week
  form \<open>2024-W11-5\<close> is the 15th of March 2024 too. The texts \<open>2024-03-15\<close> and
  \<open>15 March 2024\<close> both give the 15th of March 2024, and \<open>not-a-date\<close> is refused.
\<close>

theorem parse_ecb_date_forms:
  "(list_all py_isspace l \<longrightarrow> list_all py_isspace r \<longrightarrow> parse_ecb_date (l @ s @ r) = parse_ecb_date s)
   \<and> parse_ecb_date s =
       (case fromisoformat (strip s) of
          Some d \<Rightarrow> Inr d
        | None \<Rightarrow> (case strptime_dBY (strip s) of
                     Some d \<Rightarrow> Inr d
                   | None \<Rightarrow> Inl (DateValueError (strip s))))
   \<and> (iso_calendar_form (strip s) \<longrightarrow>
        parse_ecb_date s =
          (case make_date (int_of_digits (take 4 (strip s))) (int_of_digits (take 2 (drop 5 (strip s))))
                  (int_of_digits (drop 8 (strip s))) of
             Some d \<Rightarrow> Inr d
           | None \<Rightarrow> Inl (DateValueError (strip s))))
   \<and> (make_date y m d = Some dt \<longrightarrow> parse_ecb_date (isoformat dt) = Inr dt)
   \<and> (make_date y m d = Some dt \<longrightarrow> lower b = month_names ! nat (m - 1) \<longrightarrow>
        parse_ecb_date (digits_of_int d @ '' '' @ b @ '' '' @ zero_pad 4 y) = Inr dt)
   \<and> parse_ecb_date ''2024-03-15'' = Inr \<lparr>year = 2024, month = 3, day = 15\<rparr>
   \<and> parse_ecb_date ''15 March 2024'' = Inr \<lparr>year = 2024, month = 3, day = 15\<rparr>
   \<and> parse_ecb_date ''not-a-date'' = Inl (DateValueError ''not-a-date'')
   \<and> parse_ecb_date ''2024-W11-5'' = Inr \<lparr>year = 2024, month = 3, day = 15\<rparr>"
proof (intro conjI impI)
  assume "list_all py_isspace l" "list_all py_isspace r"
  then have "strip (l @ s @ r) = strip s" by (rule strip_surrounding)
  then show "parse_ecb_date (l @ s @ r) = parse_ecb_date s"
    by (simp only: parse_ecb_date_unfold)
next
  show "parse_ecb_date s =
       (case fromisoformat (strip s) of
          Some d \<Rightarrow> Inr d
        | None \<Rightarrow> (case strptime_dBY (strip s) of
                     Some d \<Rightarrow> Inr d
                   | None \<Rightarrow> Inl (DateValueError (strip s))))"
    by (rule parse_ecb_date_unfold)
next
  assume "iso_calendar_form (strip s)"
  then show "parse_ecb_date s =
          (case make_date (int_of_digits (take 4 (strip s))) (int_of_digits (take 2 (drop 5 (strip s))))
                  (int_of_digits (drop 8 (strip s))) of
             Some d \<Rightarrow> Inr d
           | None \<Rightarrow> Inl (DateValueError (strip s)))"
    by (rule parse_ecb_date_calendar_form)
next
  assume "make_date y m d = Some dt"
  then show "parse_ecb_date (isoformat dt) = Inr dt"
    by (rule parse_ecb_date_isoformat)
next
  assume "make_date y m d = Some dt" "lower b = month_names ! nat (m - 1)"
  then show "parse_ecb_date (digits_of_int d @ '' '' @ b @ '' '' @ zero_pad 4 y) = Inr dt"
    by (rule parse_ecb_date_long_form)
next
  show "parse_ecb_date ''2024-03-15'' = Inr \<lparr>year = 2024, month = 3, day = 15\<rparr>"
    by code_simp
  show "parse_ecb_date ''15 March 2024'' = Inr \<lparr>year = 2024, month = 3, day = 15\<rparr>"
    by code_simp
  show "parse_ecb_date ''not-a-date'' = Inl (DateValueError ''not-a-date'')"
    by code_simp
  show "parse_ecb_date ''2024-W11-5'' = Inr \<lparr>year = 2024, month = 3, day = 15\<rparr>"
    by code_simp
qed

theorem parse_ecb_date_forms_witness:
  "parse_ecb_date ([CHR 0xA0, CHR '' ''] @ ''2024-03-15'' @ [CHR 0x0A]) = Inr \<lparr>year = 2024, month = 3, day = 15\<rparr>
   \<and> parse_ecb_date ''2024-02-30'' = Inl (DateValueError ''2024-02-30'')
   \<and> parse_ecb_date (isoformat \<lparr>year = 2024, month = 2, day = 29\<rparr>) = Inr \<lparr>year = 2024, month = 2, day = 29\<rparr>
   \<and> parse_ecb_date ''5 MAY 2024'' = Inr \<lparr>year = 2024, month = 5, day = 5\<rparr>"
proof -
  let ?leap = "\<lparr>year = 2024, month = 2, day = 29\<rparr>"
  let ?may = "\<lparr>year = 2024, month = 5, day = 5\<rparr>"
  note t1 = parse_ecb_date_forms
    [where l = "[CHR 0xA0, CHR '' '']" and s = "''2024-03-15''" and r = "[CHR 0x0A]"
       and y = 2024 and m = 2 and d = 29 and dt = ?leap and b = "''February''"]
  note t2 = parse_ecb_date_forms
    [where l = "[]" and s = "''2024-02-30''" and r = "[]"
       and y = 2024 and m = 5 and d = 5 and dt = ?may and b = "''MAY''"]
  have sp: "list_all py_isspace [CHR 0xA0, CHR '' '']" "list_all py_isspace [CHR 0x0A]"
    by code_simp+
  have form: "iso_calendar_form (strip ''2024-02-30'')" by code_simp
  have none: "(case make_date (int_of_digits (take 4 (strip ''2024-02-30'')))
         (int_of_digits (take 2 (drop 5 (strip ''2024-02-30'')))) (int_of_digits (drop 8 (strip ''2024-02-30''))) of
       Some d \<Rightarrow> Inr d | None \<Rightarrow> Inl (DateValueError (strip ''2024-02-30'')))
     = Inl (DateValueError ''2024-02-30'')"
    by code_simp
  have leap: "make_date 2024 2 29 = Some ?leap" by code_simp
  have may: "make_date 2024 5 5 = Some ?may" by code_simp
  have name: "lower ''MAY'' = month_names ! nat (5 - 1)" by code_simp
  have lit: "digits_of_int 5 @ '' '' @ ''MAY'' @ '' '' @ zero_pad 4 2024 = ''5 MAY 2024''"
    by code_simp
  note trim = t1 [THEN conjunct1, rule_format, OF sp]
  note example = t1 [THEN conjunct2, THEN conjunct2, THEN conjunct2, THEN conjunct2, THEN conjunct2,
    THEN conjunct1]
  note calendar = t2 [THEN conjunct2, THEN conjunct2, THEN conjunct1, rule_format, OF form]
  note iso_back = t1 [THEN conjunct2, THEN conjunct2, THEN conjunct2, THEN conjunct1, rule_format, OF leap]
  note long_back = t2 [THEN conjunct2, THEN conjunct2, THEN conjunct2, THEN conjunct2, THEN conjunct1,
    rule_format, OF may name]
  from trim example have r1: "parse_ecb_date ([CHR 0xA0, CHR '' ''] @ ''2024-03-15'' @ [CHR 0x0A])
      = Inr \<lparr>year = 2024, month = 3, day = 15\<rparr>"
    by (rule trans)
  from calendar none have r2: "parse_ecb_date ''2024-02-30'' = Inl (DateValueError ''2024-02-30'')"
    by (rule trans)
  from iso_back have r3: "parse_ecb_date (isoformat ?leap) = Inr ?leap" .
  from long_back have r4: "parse_ecb_date ''5 MAY 2024'' = Inr ?may" by (simp only: lit)
  from r1 r2 r3 r4 show ?thesis by (intro conjI)
qed

theorem parse_ecb_date_basic_form_counterexample:
  "\<not> iso_calendar_form ''20240315'' \<and> strptime_dBY ''20240315'' = None
   \<and> parse_ecb_date ''20240315'' = Inr \<lparr>year = 2024, month = 3, day = 15\<rparr>"
proof (intro conjI)
  show "\<not> iso_calendar_form ''20240315''" by simp
  show "strptime_dBY ''20240315'' = None" by code_simp
  show "parse_ecb_date ''20240315'' = Inr \<lparr>year = 2024, month = 3, day = 15\<rparr>" by code_simp
qed

end
